theory Spec2Isabelle
  imports Main
begin

section \<open>The client controller of frontend/app.js\<close>

text \<open>
  The controller keeps a list of staged files and a processing flag in one global
  object, reacts to DOM events, and talks to the backend with \<^verbatim>\<open>fetch\<close>.
  Every handler is modelled as a function from the world before the event to the world
  after it. The world holds the \<^verbatim>\<open>state\<close> object, the properties of the DOM
  elements the handlers write, the notifications shown so far, the requests sent so
  far, and what is still pending: the batch run suspended at an \<^verbatim>\<open>await\<close>, the file
  readers whose load event has not arrived, and the health check of the start-up.

  The browser runs one handler at a time, but an \<^verbatim>\<open>async\<close> function gives up
  control at every \<^verbatim>\<open>await\<close>. The batch run is therefore modelled in segments:
  the click runs it up to its first \<^verbatim>\<open>await\<close>, and each answer of the network is
  an event that runs it from there to the next \<^verbatim>\<open>await\<close> or to its end. Any other
  handler may run between two segments.

  Notification and overlay texts are template strings in the source; the model keeps the
  template (one constructor per template, tagged with its source line) and its
  parameters. Numbers written into \<^verbatim>\<open>textContent\<close> are kept as numbers.
  Console output is not modelled.
\<close>

subsection \<open>Data\<close>

text \<open>A browser \<^verbatim>\<open>File\<close>: the three properties the code reads, and the blob itself as
  an opaque handle (two different blobs may agree on name, size and type).\<close>

record file_t =
  name :: string
  size_f :: nat
  type_f :: string
  blob :: nat

text \<open>The global \<^verbatim>\<open>state\<close> object (lines 20-24). The keys of
  \<^verbatim>\<open>uploadedFileIds\<close> are list indices.\<close>

record state =
  files :: "file_t list"
  uploadedFileIds :: "int \<rightharpoonup> string"
  processing :: bool

datatype toast_type = Info | Success | Error

text \<open>Texts of notifications. \<open>Thrown\<close> is the message of an \<^verbatim>\<open>Error\<close> object.\<close>

datatype thrown =
    UploadFailed string    \<comment> \<open>line 253, with the response's status text\<close>
  | ProcessFailed string   \<comment> \<open>line 278, with the response's status text\<close>
  | Native string          \<comment> \<open>raised by \<^verbatim>\<open>fetch\<close> or by \<^verbatim>\<open>response.json()\<close>\<close>

datatype toast_text =
    HealthFailedText       \<comment> \<open>line 69\<close>
  | UnreachableText        \<comment> \<open>line 73\<close>
  | BadTypeText string     \<comment> \<open>line 113, with the file name\<close>
  | TooLargeText string    \<comment> \<open>line 118, with the file name\<close>
  | DoneText nat           \<comment> \<open>line 294, with the number of processing results\<close>
  | FailedText thrown      \<comment> \<open>line 298, with the message of the caught error\<close>

record toast =
  toast_text :: toast_text
  backgroundColor :: string

datatype loading_text =
    DefaultLoading         \<comment> \<open>line 358, the fallback text\<close>
  | UploadingFiles         \<comment> \<open>line 234\<close>
  | UploadingOf nat nat    \<comment> \<open>line 242: file i+1 of n\<close>
  | ProcessingOf nat nat   \<comment> \<open>line 271: file i+1 of n\<close>

text \<open>The width of the progress bar: \<^verbatim>\<open>'0%'\<close>, or the percentage computed from a
  quotient (lines 241 and 270), kept as numerator and denominator.\<close>

datatype css_width = ZeroPercent | PercentOf nat nat

datatype list_view = EmptyMessage | Items "file_t list"

datatype image_view = ImagePlaceholder | ImageOf file_t

datatype table_view = TablePlaceholder | TableHTML string

text \<open>A number shown as a cell count: the result of a multiplication of two integers
  in double precision.\<close>

datatype number = Num int | PlusInfinity | MinusInfinity

text \<open>The properties of the DOM elements that the handlers write.\<close>

record page =
  fileInput_value :: string
  uploadArea_dragover :: bool
  fileListContent :: list_view
  processBtn_disabled :: bool
  imagePreview :: image_view
  tablePreview :: table_view
  resultSection_display :: string
  resultSection_scrolls :: nat
  loadingOverlay_display :: string
  loadingMessage :: loading_text
  progressFill_width :: css_width
  downloadLink_href :: string
  downloadLink_download :: string
  rowCount :: int
  colCount :: int
  cellCount :: number

datatype request = Get string | Post string "file_t option"

subsection \<open>The backend and the suspended batch run\<close>

text \<open>A \<^verbatim>\<open>fetch\<close> either throws (network error, with a message) or resolves to a
  response, of which the code reads \<^verbatim>\<open>ok\<close> and \<^verbatim>\<open>statusText\<close>. Reading the body
  with \<^verbatim>\<open>json()\<close> is a second \<^verbatim>\<open>await\<close>: it either throws (\<open>Inl\<close>, with the
  message) or gives the parsed value.\<close>

datatype answer = Throws string | Resolves bool string

record upload_body =
  file_id :: string
  filename :: string

type_synonym cell = "string option"

text \<open>The payload of \<^verbatim>\<open>/process\<close> after parsing. A field that is absent (or
  \<^verbatim>\<open>null\<close>) is \<open>None\<close>; a cell of the grid may be \<^verbatim>\<open>null\<close> as well. The counts
  are integers.\<close>

record process_body =
  preview_data :: "cell list list option"
  row_count :: "int option"
  col_count :: "int option"
  excel_url :: "string option"

record upload_result =
  index :: nat
  fileId :: string
  filename_u :: string

record process_result =
  index_p :: nat
  result :: process_body

text \<open>Where \<^verbatim>\<open>handleProcess\<close> is suspended, with the local variables that are live
  there: the loop counter and the arrays \<^verbatim>\<open>uploadResults\<close> and
  \<^verbatim>\<open>processResults\<close>.\<close>

datatype task =
    AwaitUpload nat "upload_result list"
      \<comment> \<open>line 247: \<^verbatim>\<open>await fetch\<close> of the upload in iteration \<open>i\<close>\<close>
  | AwaitUploadJson nat "upload_result list"
      \<comment> \<open>line 256: \<^verbatim>\<open>await response.json()\<close> in iteration \<open>i\<close>\<close>
  | AwaitProcess "upload_result list" nat "process_result list"
      \<comment> \<open>line 273: \<^verbatim>\<open>await fetch\<close> of the processing call in iteration \<open>i\<close>\<close>
  | AwaitProcessJson "upload_result list" nat "process_result list"
      \<comment> \<open>line 281: \<^verbatim>\<open>await response.json()\<close> in iteration \<open>i\<close>\<close>

record world =
  st :: state
  ui :: page
  toasts :: "toast list"
  requests :: "request list"
  running :: "task option"
  readers :: "file_t list"
  health_pending :: bool

subsection \<open>Small helpers\<close>

definition API_BASE_URL :: string where
  "API_BASE_URL = ''http://localhost:8000''"

definition showToast :: "toast_text \<Rightarrow> toast_type \<Rightarrow> world \<Rightarrow> world" where
  "showToast message ty w =
     (let bg = (if ty = Success then ''#48bb78''
                else if ty = Error then ''#f56565'' else ''#4299e1'')
      in w\<lparr>toasts := toasts w @ [\<lparr>toast_text = message, backgroundColor = bg\<rparr>]\<rparr>)"

definition updateFileList :: "world \<Rightarrow> world" where
  "updateFileList w =
     (if length (files (st w)) = 0
      then w\<lparr>ui := (ui w)\<lparr>fileListContent := EmptyMessage\<rparr>\<rparr>
      else w\<lparr>ui := (ui w)\<lparr>fileListContent := Items (files (st w))\<rparr>\<rparr>)"

definition updateProcessButton :: "world \<Rightarrow> world" where
  "updateProcessButton w =
     w\<lparr>ui := (ui w)\<lparr>processBtn_disabled :=
          (length (files (st w)) = 0 \<or> processing (st w))\<rparr>\<rparr>"

text \<open>\<^verbatim>\<open>previewFirstImage\<close> starts a \<^verbatim>\<open>FileReader\<close> on the first staged file; the
  image is written when the load event of that reader arrives (\<open>readerLoaded\<close>, the
  \<^verbatim>\<open>onload\<close> callback of lines 191-198), which may be after other handlers ran.\<close>

definition previewFirstImage :: "world \<Rightarrow> world" where
  "previewFirstImage w =
     (if length (files (st w)) > 0
      then w\<lparr>readers := readers w @ [files (st w) ! 0]\<rparr>
      else w\<lparr>ui := (ui w)\<lparr>imagePreview := ImagePlaceholder\<rparr>\<rparr>)"

definition readerLoaded :: "nat \<Rightarrow> world \<Rightarrow> world" where
  "readerLoaded k w =
     (if k < length (readers w)
      then w\<lparr>ui := (ui w)\<lparr>imagePreview := ImageOf (readers w ! k)\<rparr>,
             readers := take k (readers w) @ drop (Suc k) (readers w)\<rparr>
      else w)"

definition clearPreviews :: "world \<Rightarrow> world" where
  "clearPreviews w =
     w\<lparr>ui := (ui w)\<lparr>imagePreview := ImagePlaceholder, tablePreview := TablePlaceholder\<rparr>\<rparr>"

definition hideResultSection :: "world \<Rightarrow> world" where
  "hideResultSection w = w\<lparr>ui := (ui w)\<lparr>resultSection_display := ''none''\<rparr>\<rparr>"

definition showLoading :: "loading_text option \<Rightarrow> world \<Rightarrow> world" where
  "showLoading message w =
     w\<lparr>ui := (ui w)\<lparr>loadingMessage := (case message of None \<Rightarrow> DefaultLoading | Some m \<Rightarrow> m),
                      progressFill_width := ZeroPercent,
                      loadingOverlay_display := ''flex''\<rparr>\<rparr>"

definition hideLoading :: "world \<Rightarrow> world" where
  "hideLoading w = w\<lparr>ui := (ui w)\<lparr>loadingOverlay_display := ''none''\<rparr>\<rparr>"

subsection \<open>Staging files\<close>

definition validTypes :: "string list" where
  "validTypes = [''image/png'', ''image/jpeg'', ''image/jpg'', ''image/bmp'', ''image/tiff'']"

definition maxSize :: nat where
  "maxSize = 10 * 1024 * 1024"

text \<open>The callback of \<^verbatim>\<open>files.filter\<close> (lines 108-123): it returns whether the file
  is kept, and may show a notification.\<close>

definition validate :: "file_t \<Rightarrow> world \<Rightarrow> bool \<times> world" where
  "validate f w =
     (if type_f f \<notin> set validTypes then (False, showToast (BadTypeText (name f)) Error w)
      else if size_f f > maxSize then (False, showToast (TooLargeText (name f)) Error w)
      else (True, w))"

fun filterValid :: "file_t list \<Rightarrow> world \<Rightarrow> file_t list \<times> world" where
  "filterValid [] w = ([], w)"
| "filterValid (f # fs) w =
     (case validate f w of
        (keep, w') \<Rightarrow>
          (case filterValid fs w' of
             (rest, w'') \<Rightarrow> ((if keep then f # rest else rest), w'')))"

text \<open>The callback of \<^verbatim>\<open>validFiles.forEach\<close> (lines 125-131).\<close>

definition stage :: "file_t \<Rightarrow> world \<Rightarrow> world" where
  "stage f w =
     (case find (\<lambda>g. name g = name f \<and> size_f g = size_f f) (files (st w)) of
        None \<Rightarrow> w\<lparr>st := (st w)\<lparr>files := files (st w) @ [f]\<rparr>\<rparr>
      | Some existingFile \<Rightarrow> w)"

fun stageAll :: "file_t list \<Rightarrow> world \<Rightarrow> world" where
  "stageAll [] w = w"
| "stageAll (f # fs) w = stageAll fs (stage f w)"

definition addFiles :: "file_t list \<Rightarrow> world \<Rightarrow> world" where
  "addFiles fs w =
     (case filterValid fs w of
        (validFiles, w1) \<Rightarrow>
          previewFirstImage (updateProcessButton (updateFileList (stageAll validFiles w1))))"

definition handleFileSelect :: "file_t list \<Rightarrow> world \<Rightarrow> world" where
  "handleFileSelect fs w =
     (let w1 = addFiles fs w in w1\<lparr>ui := (ui w1)\<lparr>fileInput_value := []\<rparr>\<rparr>)"

definition handleDragOver :: "world \<Rightarrow> world" where
  "handleDragOver w = w\<lparr>ui := (ui w)\<lparr>uploadArea_dragover := True\<rparr>\<rparr>"

definition handleDragLeave :: "world \<Rightarrow> world" where
  "handleDragLeave w = w\<lparr>ui := (ui w)\<lparr>uploadArea_dragover := False\<rparr>\<rparr>"

definition handleDrop :: "file_t list \<Rightarrow> world \<Rightarrow> world" where
  "handleDrop fs w = addFiles fs (w\<lparr>ui := (ui w)\<lparr>uploadArea_dragover := False\<rparr>\<rparr>)"

subsection \<open>Removing and clearing\<close>

text \<open>\<^verbatim>\<open>Array.prototype.splice(index, 1)\<close>: a negative start counts from the end, and
  the start is clamped to the bounds of the array; one element is deleted if there is
  one at the start position.\<close>

definition splice1 :: "int \<Rightarrow> 'a list \<Rightarrow> 'a list" where
  "splice1 i xs =
     (let len = int (length xs);
          start = (if i < 0 then max (len + i) 0 else min i len)
      in take (nat start) xs @ drop (nat start + 1) xs)"

definition removeFile :: "int \<Rightarrow> world \<Rightarrow> world" where
  "removeFile i w =
     (let w1 = w\<lparr>st := (st w)\<lparr>files := splice1 i (files (st w))\<rparr>\<rparr>;
          w2 = w1\<lparr>st := (st w1)\<lparr>uploadedFileIds := (uploadedFileIds (st w1))(i := None)\<rparr>\<rparr>
      in previewFirstImage (updateProcessButton (updateFileList w2)))"

definition clearFileList :: "world \<Rightarrow> world" where
  "clearFileList w =
     (let w1 = w\<lparr>st := (st w)\<lparr>files := []\<rparr>\<rparr>;
          w2 = w1\<lparr>st := (st w1)\<lparr>uploadedFileIds := Map.empty\<rparr>\<rparr>
      in hideResultSection (clearPreviews (updateProcessButton (updateFileList w2))))"

definition handleProcessAnother :: "world \<Rightarrow> world" where
  "handleProcessAnother w = clearFileList (hideResultSection w)"

subsection \<open>Rendering a result\<close>

text \<open>\<^verbatim>\<open>x || 0\<close> on an optional number and \<^verbatim>\<open>cell || ''\<close> on an optional string: the
  right operand replaces every falsy left operand.\<close>

definition orZero :: "int option \<Rightarrow> int" where
  "orZero x = (case x of None \<Rightarrow> 0 | Some n \<Rightarrow> if n = 0 then 0 else n)"

definition orEmpty :: "cell \<Rightarrow> string" where
  "orEmpty c = (case c of None \<Rightarrow> [] | Some s \<Rightarrow> if s = [] then [] else s)"

text \<open>Numbers are IEEE doubles. An integer below \<open>2^53\<close> in magnitude is a double;
  a larger one is rounded to 53 significant bits, to the nearest double and to the even
  one of two nearest, and becomes infinite from \<open>2^1024\<close> on. \<open>multiply\<close> is the
  operator \<^verbatim>\<open>*\<close> on two integers: the exact product, rounded.\<close>

function bitLength :: "nat \<Rightarrow> nat" where
  "bitLength n = (if n = 0 then 0 else Suc (bitLength (n div 2)))"
  by pat_completeness auto
termination
  by (relation "measure id") auto

declare bitLength.simps [simp del]

definition roundToDouble :: "int \<Rightarrow> number" where
  "roundToDouble n =
     (let a = nat \<bar>n\<bar> in
      if a < 2 ^ 53 then Num n
      else
        (let e = bitLength a - 53;
             q = a div 2 ^ e;
             r = a mod 2 ^ e;
             half = 2 ^ (e - 1);
             q' = (if r > half \<or> (r = half \<and> odd q) then q + 1 else q);
             v = q' * 2 ^ e
         in if v \<ge> 2 ^ 1024 then (if n < 0 then MinusInfinity else PlusInfinity)
            else Num (if n < 0 then - int v else int v)))"

definition multiply :: "int \<Rightarrow> int \<Rightarrow> number" where
  "multiply x y = roundToDouble (x * y)"

text \<open>The two nested \<^verbatim>\<open>forEach\<close> loops of lines 315-322, appending to
  \<^verbatim>\<open>tableHTML\<close>.\<close>

fun eachCell :: "bool \<Rightarrow> nat \<Rightarrow> cell list \<Rightarrow> string \<Rightarrow> string" where
  "eachCell hasHeader rowIndex [] tableHTML = tableHTML"
| "eachCell hasHeader rowIndex (c # cs) tableHTML =
     (let tag = (if hasHeader \<and> rowIndex = 0 then ''th'' else ''td'')
      in eachCell hasHeader rowIndex cs
           (tableHTML @ ''<'' @ tag @ ''>'' @ orEmpty c @ ''</'' @ tag @ ''>''))"

fun eachRow :: "bool \<Rightarrow> nat \<Rightarrow> cell list list \<Rightarrow> string \<Rightarrow> string" where
  "eachRow hasHeader rowIndex [] tableHTML = tableHTML"
| "eachRow hasHeader rowIndex (row # rows) tableHTML =
     eachRow hasHeader (Suc rowIndex) rows
       (eachCell hasHeader rowIndex row (tableHTML @ ''<tr>'') @ ''</tr>'')"

definition buildTable :: "cell list list \<Rightarrow> string" where
  "buildTable grid = eachRow (length grid > 1) 0 grid ''<table>'' @ ''</table>''"

definition displayResult :: "process_body \<Rightarrow> world \<Rightarrow> world" where
  "displayResult r w =
     (let w1 = (case preview_data r of
                  None \<Rightarrow> w
                | Some grid \<Rightarrow>
                    if length grid > 0
                    then w\<lparr>ui := (ui w)\<lparr>tablePreview := TableHTML (buildTable grid)\<rparr>\<rparr>
                    else w);
          w2 = w1\<lparr>ui := (ui w1)\<lparr>rowCount := orZero (row_count r)\<rparr>\<rparr>;
          w3 = w2\<lparr>ui := (ui w2)\<lparr>colCount := orZero (col_count r)\<rparr>\<rparr>;
          w4 = w3\<lparr>ui := (ui w3)\<lparr>cellCount := multiply (orZero (row_count r)) (orZero (col_count r))\<rparr>\<rparr>;
          w5 = (case excel_url r of
                  None \<Rightarrow> w4
                | Some url \<Rightarrow>
                    if url \<noteq> []
                    then w4\<lparr>ui := (ui w4)\<lparr>downloadLink_href := API_BASE_URL @ url,
                                           downloadLink_download := ''table.xlsx''\<rparr>\<rparr>
                    else w4);
          w6 = w5\<lparr>ui := (ui w5)\<lparr>resultSection_display := ''block''\<rparr>\<rparr>
      in w6\<lparr>ui := (ui w6)\<lparr>resultSection_scrolls := Suc (resultSection_scrolls (ui w6))\<rparr>\<rparr>)"

subsection \<open>The batch run\<close>

text \<open>What an iteration of the upload loop does before it waits for the answer (lines
  241-250): it moves the progress bar, names the file in the overlay and sends the
  request. The staged list is read as it is at that moment.\<close>

definition beforeUpload :: "nat \<Rightarrow> world \<Rightarrow> world" where
  "beforeUpload i w =
     (let w1 = w\<lparr>ui := (ui w)\<lparr>progressFill_width := PercentOf i (length (files (st w)))\<rparr>\<rparr>;
          w2 = w1\<lparr>ui := (ui w1)\<lparr>loadingMessage :=
                     UploadingOf (i + 1) (length (files (st w1)))\<rparr>\<rparr>
      in w2\<lparr>requests := requests w2 @
                [Post (API_BASE_URL @ ''/upload'') (Some (files (st w2) ! i))]\<rparr>)"

text \<open>The same for the processing loop (lines 268-275).\<close>

definition beforeProcess :: "upload_result list \<Rightarrow> nat \<Rightarrow> world \<Rightarrow> world" where
  "beforeProcess uploadResults i w =
     (let u = uploadResults ! i;
          w1 = w\<lparr>ui := (ui w)\<lparr>progressFill_width :=
                     PercentOf (i + 1) (length uploadResults)\<rparr>\<rparr>;
          w2 = w1\<lparr>ui := (ui w1)\<lparr>loadingMessage :=
                     ProcessingOf (i + 1) (length uploadResults)\<rparr>\<rparr>
      in w2\<lparr>requests := requests w2 @
                [Post (API_BASE_URL @ ''/process?file_id='' @ fileId u
                         @ ''&filename='' @ filename_u u) None]\<rparr>)"

text \<open>The \<^verbatim>\<open>finally\<close> block (lines 299-303), after which the run is over.\<close>

definition finallyBlock :: "world \<Rightarrow> world" where
  "finallyBlock w =
     (let w1 = w\<lparr>st := (st w)\<lparr>processing := False\<rparr>\<rparr>;
          w2 = updateProcessButton w1;
          w3 = hideLoading w2
      in w3\<lparr>running := None\<rparr>)"

text \<open>The \<^verbatim>\<open>catch\<close> block (lines 296-298), entered with the error thrown.\<close>

definition catchBlock :: "thrown \<Rightarrow> world \<Rightarrow> world" where
  "catchBlock error w = finallyBlock (showToast (FailedText error) Error w)"

text \<open>The end of the \<^verbatim>\<open>try\<close> block, after both loops (lines 288-294).\<close>

definition endOfTry :: "process_result list \<Rightarrow> world \<Rightarrow> world" where
  "endOfTry processResults w =
     (let w1 = (if length processResults > 0
                then displayResult (result (processResults ! 0)) w
                else w)
      in finallyBlock (showToast (DoneText (length processResults)) Success w1))"

text \<open>The processing loop from the test of its condition (line 267) with counter \<open>i\<close>
  to the next \<^verbatim>\<open>await\<close>, or through the end of the run.\<close>

definition processLoop :: "upload_result list \<Rightarrow> nat \<Rightarrow> process_result list \<Rightarrow> world \<Rightarrow> world" where
  "processLoop uploadResults i processResults w =
     (if i < length uploadResults
      then (beforeProcess uploadResults i w)
             \<lparr>running := Some (AwaitProcess uploadResults i processResults)\<rparr>
      else endOfTry processResults w)"

text \<open>The upload loop from the test of its condition (line 240) with counter \<open>i\<close> to
  the next \<^verbatim>\<open>await\<close>; when the condition fails, the processing loop starts.\<close>

definition uploadLoop :: "nat \<Rightarrow> upload_result list \<Rightarrow> world \<Rightarrow> world" where
  "uploadLoop i uploadResults w =
     (if i < length (files (st w))
      then (beforeUpload i w)\<lparr>running := Some (AwaitUpload i uploadResults)\<rparr>
      else processLoop uploadResults 0 [] w)"

text \<open>The click on the process trigger: \<^verbatim>\<open>handleProcess\<close> from its start to its
  first \<^verbatim>\<open>await\<close> (lines 229-247).\<close>

definition handleProcess :: "world \<Rightarrow> world" where
  "handleProcess w =
     (if length (files (st w)) = 0 \<or> processing (st w) then w
      else
        (let w1 = w\<lparr>st := (st w)\<lparr>processing := True\<rparr>\<rparr>;
             w2 = updateProcessButton w1;
             w3 = showLoading (Some UploadingFiles) w2
         in uploadLoop 0 [] w3))"

text \<open>A pending \<^verbatim>\<open>fetch\<close> of the run settles (lines 247-256 and 273-281). An answer
  for which nothing is waiting does not occur; the model leaves the world as it is.\<close>

definition fetchSettled :: "answer \<Rightarrow> world \<Rightarrow> world" where
  "fetchSettled a w =
     (case running w of
        Some (AwaitUpload i uploadResults) \<Rightarrow>
          (case a of
             Throws m \<Rightarrow> catchBlock (Native m) w
           | Resolves ok statusText \<Rightarrow>
               if \<not> ok then catchBlock (UploadFailed statusText) w
               else w\<lparr>running := Some (AwaitUploadJson i uploadResults)\<rparr>)
      | Some (AwaitProcess uploadResults i processResults) \<Rightarrow>
          (case a of
             Throws m \<Rightarrow> catchBlock (Native m) w
           | Resolves ok statusText \<Rightarrow>
               if \<not> ok then catchBlock (ProcessFailed statusText) w
               else w\<lparr>running := Some (AwaitProcessJson uploadResults i processResults)\<rparr>)
      | _ \<Rightarrow> w)"

text \<open>The body of an upload response has been read (lines 256-262, then the next
  iteration).\<close>

definition uploadBodySettled :: "string + upload_body \<Rightarrow> world \<Rightarrow> world" where
  "uploadBodySettled body w =
     (case running w of
        Some (AwaitUploadJson i uploadResults) \<Rightarrow>
          (case body of
             Inl m \<Rightarrow> catchBlock (Native m) w
           | Inr r \<Rightarrow>
               uploadLoop (i + 1)
                 (uploadResults @ [\<lparr>index = i, fileId = file_id r, filename_u = filename r\<rparr>])
                 w)
      | _ \<Rightarrow> w)"

text \<open>The body of a processing response has been read (lines 281-286, then the next
  iteration).\<close>

definition processBodySettled :: "string + process_body \<Rightarrow> world \<Rightarrow> world" where
  "processBodySettled body w =
     (case running w of
        Some (AwaitProcessJson uploadResults i processResults) \<Rightarrow>
          (case body of
             Inl m \<Rightarrow> catchBlock (Native m) w
           | Inr r \<Rightarrow>
               processLoop uploadResults (i + 1)
                 (processResults @ [\<lparr>index_p = index (uploadResults ! i), result = r\<rparr>])
                 w)
      | _ \<Rightarrow> w)"

subsection \<open>Start-up and events\<close>

text \<open>\<^verbatim>\<open>checkServerStatus\<close> after its \<^verbatim>\<open>await\<close> (lines 66-74); the request itself
  is sent when the page is loaded.\<close>

definition healthSettled :: "answer \<Rightarrow> world \<Rightarrow> world" where
  "healthSettled a w =
     (if health_pending w then
        (let w1 = w\<lparr>health_pending := False\<rparr>
         in case a of
              Throws m \<Rightarrow> showToast UnreachableText Error w1
            | Resolves ok statusText \<Rightarrow>
                if ok then w1 else showToast HealthFailedText Error w1)
      else w)"

text \<open>What can happen on the page: the listeners installed by
  \<^verbatim>\<open>setupEventListeners\<close>, the global \<^verbatim>\<open>removeFile\<close>, the load event of a file
  reader, and the answers of the network.\<close>

datatype event =
    HealthSettled answer
  | FileSelect "file_t list"
  | DragOver
  | DragLeave
  | Drop "file_t list"
  | RemoveFile int
  | ClearClick
  | ProcessClick
  | ProcessAnotherClick
  | ReaderLoaded nat
  | FetchSettled answer
  | UploadBodySettled "string + upload_body"
  | ProcessBodySettled "string + process_body"

fun handle :: "event \<Rightarrow> world \<Rightarrow> world" where
  "handle (HealthSettled a) w = healthSettled a w"
| "handle (FileSelect fs) w = handleFileSelect fs w"
| "handle DragOver w = handleDragOver w"
| "handle DragLeave w = handleDragLeave w"
| "handle (Drop fs) w = handleDrop fs w"
| "handle (RemoveFile i) w = removeFile i w"
| "handle ClearClick w = clearFileList w"
| "handle ProcessClick w = handleProcess w"
| "handle ProcessAnotherClick w = handleProcessAnother w"
| "handle (ReaderLoaded k) w = readerLoaded k w"
| "handle (FetchSettled a) w = fetchSettled a w"
| "handle (UploadBodySettled body) w = uploadBodySettled body w"
| "handle (ProcessBodySettled body) w = processBodySettled body w"

definition initial_state :: state where
  "initial_state = \<lparr>files = [], uploadedFileIds = Map.empty, processing = False\<rparr>"

text \<open>The worlds the page can be in: it is loaded with the state object of lines
  20-24, whatever the document shows, and \<^verbatim>\<open>init\<close> has sent the health check; then
  it handles one event after the other.\<close>

definition page_load :: "page \<Rightarrow> world" where
  "page_load p =
     \<lparr>st = initial_state, ui = p, toasts = [],
      requests = [Get (API_BASE_URL @ ''/health'')],
      running = None, readers = [], health_pending = True\<rparr>"

fun run :: "event list \<Rightarrow> world \<Rightarrow> world" where
  "run [] w = w"
| "run (e # es) w = run es (handle e w)"

text \<open>The run that is in flight in \<open>w\<close> is still in flight after each of the events.\<close>

fun inFlight :: "event list \<Rightarrow> world \<Rightarrow> bool" where
  "inFlight [] w = (running w \<noteq> None)"
| "inFlight (e # es) w = (running w \<noteq> None \<and> inFlight es (handle e w))"

text \<open>The run is in its upload loop.\<close>

fun uploading :: "task option \<Rightarrow> bool" where
  "uploading (Some (AwaitUpload i us)) = True"
| "uploading (Some (AwaitUploadJson i us)) = True"
| "uploading t = False"

text \<open>The processing flag is set exactly while a run is suspended, and the counters and
  the recorded positions of a suspended run agree with its arrays.\<close>

fun positions :: "task \<Rightarrow> bool" where
  "positions (AwaitUpload i us) = (map index us = [0..<i])"
| "positions (AwaitUploadJson i us) = (map index us = [0..<i])"
| "positions (AwaitProcess us i prs) =
     (map index us = [0..<length us] \<and> map index_p prs = [0..<i] \<and> i < length us)"
| "positions (AwaitProcessJson us i prs) =
     (map index us = [0..<length us] \<and> map index_p prs = [0..<i] \<and> i < length us)"

definition consistent :: "world \<Rightarrow> bool" where
  "consistent w =
     (processing (st w) = (running w \<noteq> None)
      \<and> (case running w of None \<Rightarrow> True | Some t \<Rightarrow> positions t))"

text \<open>The events that are segments of the batch run; all others are handlers that may
  run while it is suspended.\<close>

fun ofRun :: "event \<Rightarrow> bool" where
  "ofRun ProcessClick = True"
| "ofRun (FetchSettled a) = True"
| "ofRun (UploadBodySettled body) = True"
| "ofRun (ProcessBodySettled body) = True"
| "ofRun e = False"

fun isUpload :: "request \<Rightarrow> bool" where
  "isUpload (Post url (Some f)) = (url = API_BASE_URL @ ''/upload'')"
| "isUpload q = False"

subsection \<open>Notions used by the properties\<close>

text \<open>The pair on which \<^verbatim>\<open>addFiles\<close> compares a candidate with the staged files, and
  the invariant of the staged list.\<close>

definition fileKey :: "file_t \<Rightarrow> string \<times> nat" where
  "fileKey f = (name f, size_f f)"

definition noDuplicates :: "file_t list \<Rightarrow> bool" where
  "noDuplicates fs = distinct (map fileKey fs)"

text \<open>The rule of the specification for turning a candidate away: its MIME type is not
  one of the accepted image types (PNG, JPEG under either of its two names, BMP, TIFF)
  or it is larger than 10 MiB. \<open>rejectionToast\<close> is the notification for such a file.\<close>

definition rejected :: "file_t \<Rightarrow> bool" where
  "rejected f =
     (type_f f \<notin> {''image/png'', ''image/jpeg'', ''image/jpg'', ''image/bmp'', ''image/tiff''}
      \<or> size_f f > 10 * 1024 * 1024)"

definition rejectionToast :: "file_t \<Rightarrow> toast" where
  "rejectionToast f =
     \<lparr>toast_text = (if type_f f \<in> set validTypes then TooLargeText (name f)
                    else BadTypeText (name f)),
      backgroundColor = ''#f56565''\<rparr>"

text \<open>The table as the specification describes it: every row is a \<^verbatim>\<open>tr\<close> element;
  with more than one row, the cells of the first are \<^verbatim>\<open>th\<close> elements and all
  others \<^verbatim>\<open>td\<close> elements.\<close>

definition cellHTML :: "string \<Rightarrow> cell \<Rightarrow> string" where
  "cellHTML tag c = ''<'' @ tag @ ''>'' @ (case c of None \<Rightarrow> [] | Some s \<Rightarrow> s) @ ''</'' @ tag @ ''>''"

definition headerRow :: "cell list \<Rightarrow> string" where
  "headerRow row = ''<tr>'' @ concat (map (cellHTML ''th'') row) @ ''</tr>''"

definition ordinaryRow :: "cell list \<Rightarrow> string" where
  "ordinaryRow row = ''<tr>'' @ concat (map (cellHTML ''td'') row) @ ''</tr>''"

definition expectedTable :: "cell list list \<Rightarrow> string" where
  "expectedTable grid =
     ''<table>'' @
     (if length grid > 1 then headerRow (hd grid) @ concat (map ordinaryRow (tl grid))
      else concat (map ordinaryRow grid)) @
     ''</table>''"


definition uploadRequest :: "file_t \<Rightarrow> request" where
  "uploadRequest f = Post (API_BASE_URL @ ''/upload'') (Some f)"

definition processRequest :: "upload_body \<Rightarrow> request" where
  "processRequest u =
     Post (API_BASE_URL @ ''/process?file_id='' @ file_id u @ ''&filename='' @ filename u) None"

subsection \<open>Sample inputs\<close>

text \<open>A freshly loaded page, two images, a document, payloads of the backend, and some
  courses of events.\<close>

definition fresh_page :: page where
  "fresh_page =
     \<lparr>fileInput_value = [], uploadArea_dragover = False, fileListContent = EmptyMessage,
      processBtn_disabled = True, imagePreview = ImagePlaceholder,
      tablePreview = TablePlaceholder, resultSection_display = ''none'',
      resultSection_scrolls = 0, loadingOverlay_display = ''none'',
      loadingMessage = DefaultLoading, progressFill_width = ZeroPercent,
      downloadLink_href = ''#'', downloadLink_download = [],
      rowCount = 0, colCount = 0, cellCount = Num 0\<rparr>"

definition fresh_world :: world where
  "fresh_world = page_load fresh_page"

definition scan_png :: file_t where
  "scan_png = \<lparr>name = ''x.png'', size_f = 2097152, type_f = ''image/png'', blob = 1\<rparr>"

definition photo_jpeg :: file_t where
  "photo_jpeg = \<lparr>name = ''y.jpg'', size_f = 4096, type_f = ''image/jpeg'', blob = 2\<rparr>"

definition notes_pdf :: file_t where
  "notes_pdf = \<lparr>name = ''notes.pdf'', size_f = 1000, type_f = ''application/pdf'', blob = 3\<rparr>"

definition sample_result :: process_body where
  "sample_result =
     \<lparr>preview_data = Some [[Some ''H1'', Some ''H2''], [Some ''v1'', Some ''v2'']],
      row_count = Some 2, col_count = Some 2, excel_url = Some ''/download/x.xlsx''\<rparr>"


definition huge_result :: process_body where
  "huge_result =
     \<lparr>preview_data = None, row_count = Some 94906267, col_count = Some 94906267,
      excel_url = None\<rparr>"

text \<open>Two files are staged.\<close>

definition two_staged :: world where
  "two_staged = run [FileSelect [scan_png, photo_jpeg]] fresh_world"

text \<open>After the click, the first upload succeeds and the second is sent.\<close>

definition second_upload_pending :: "event list" where
  "second_upload_pending =
     [FetchSettled (Resolves True ''OK''),
      UploadBodySettled (Inr \<lparr>file_id = ''a1'', filename = ''x.png''\<rparr>)]"

text \<open>After the click, both uploads and the first processing call succeed, and the
  second processing call has been answered with success; its body is being read.\<close>

definition last_body_pending :: "event list" where
  "last_body_pending =
     [FetchSettled (Resolves True ''OK''),
      UploadBodySettled (Inr \<lparr>file_id = ''a1'', filename = ''x.png''\<rparr>),
      FetchSettled (Resolves True ''OK''),
      UploadBodySettled (Inr \<lparr>file_id = ''a2'', filename = ''y.jpg''\<rparr>),
      FetchSettled (Resolves True ''OK''),
      ProcessBodySettled (Inr sample_result),
      FetchSettled (Resolves True ''OK'')]"

text \<open>One file is staged and the batch is started; while its upload is pending, the
  file is removed from the list.\<close>

definition removed_while_uploading :: world where
  "removed_while_uploading =
     run [FileSelect [scan_png], ProcessClick, RemoveFile 0] fresh_world"

section \<open>Properties\<close>

subsection \<open>What the helpers leave alone\<close>

lemma showToast_simps [simp]:
  "st (showToast m ty w) = st w"
  "ui (showToast m ty w) = ui w"
  "requests (showToast m ty w) = requests w"
  "running (showToast m ty w) = running w"
  "toasts (showToast m Error w) = toasts w @ [\<lparr>toast_text = m, backgroundColor = ''#f56565''\<rparr>]"
  "toasts (showToast m Success w) = toasts w @ [\<lparr>toast_text = m, backgroundColor = ''#48bb78''\<rparr>]"
  by (simp_all add: showToast_def)

lemma updateFileList_simps [simp]:
  "st (updateFileList w) = st w"
  "toasts (updateFileList w) = toasts w"
  "requests (updateFileList w) = requests w"
  "running (updateFileList w) = running w"
  by (simp_all add: updateFileList_def)

lemma updateProcessButton_simps [simp]:
  "st (updateProcessButton w) = st w"
  "toasts (updateProcessButton w) = toasts w"
  "requests (updateProcessButton w) = requests w"
  "running (updateProcessButton w) = running w"
  by (simp_all add: updateProcessButton_def)

lemma previewFirstImage_simps [simp]:
  "st (previewFirstImage w) = st w"
  "toasts (previewFirstImage w) = toasts w"
  "requests (previewFirstImage w) = requests w"
  "running (previewFirstImage w) = running w"
  by (simp_all add: previewFirstImage_def)

lemma clearPreviews_simps [simp]:
  "st (clearPreviews w) = st w"
  "toasts (clearPreviews w) = toasts w"
  "requests (clearPreviews w) = requests w"
  "running (clearPreviews w) = running w"
  by (simp_all add: clearPreviews_def)

lemma hideResultSection_simps [simp]:
  "st (hideResultSection w) = st w"
  "toasts (hideResultSection w) = toasts w"
  "requests (hideResultSection w) = requests w"
  "running (hideResultSection w) = running w"
  by (simp_all add: hideResultSection_def)

lemma showLoading_simps [simp]:
  "st (showLoading m w) = st w"
  "toasts (showLoading m w) = toasts w"
  "requests (showLoading m w) = requests w"
  "running (showLoading m w) = running w"
  by (simp_all add: showLoading_def)

lemma hideLoading_simps [simp]:
  "st (hideLoading w) = st w"
  "toasts (hideLoading w) = toasts w"
  "requests (hideLoading w) = requests w"
  "running (hideLoading w) = running w"
  "loadingOverlay_display (ui (hideLoading w)) = ''none''"
  "processBtn_disabled (ui (hideLoading w)) = processBtn_disabled (ui w)"
  by (simp_all add: hideLoading_def)

lemma displayResult_simps [simp]:
  "st (displayResult r w) = st w"
  "toasts (displayResult r w) = toasts w"
  "requests (displayResult r w) = requests w"
  "running (displayResult r w) = running w"
  by (simp_all add: displayResult_def Let_def split: option.splits)

lemma readerLoaded_simps [simp]:
  "st (readerLoaded k w) = st w"
  "toasts (readerLoaded k w) = toasts w"
  "requests (readerLoaded k w) = requests w"
  "running (readerLoaded k w) = running w"
  by (simp_all add: readerLoaded_def)

lemma healthSettled_simps [simp]:
  "st (healthSettled a w) = st w"
  "requests (healthSettled a w) = requests w"
  "running (healthSettled a w) = running w"
  by (simp_all add: healthSettled_def Let_def split: answer.splits)

lemma beforeUpload_simps [simp]:
  "st (beforeUpload i w) = st w"
  "toasts (beforeUpload i w) = toasts w"
  "running (beforeUpload i w) = running w"
  "requests (beforeUpload i w) = requests w @ [uploadRequest (files (st w) ! i)]"
  by (simp_all add: beforeUpload_def Let_def uploadRequest_def)

lemma beforeProcess_simps [simp]:
  "st (beforeProcess us i w) = st w"
  "toasts (beforeProcess us i w) = toasts w"
  "running (beforeProcess us i w) = running w"
  "requests (beforeProcess us i w) = requests w @
     [processRequest \<lparr>file_id = fileId (us ! i), filename = filename_u (us ! i)\<rparr>]"
  by (simp_all add: beforeProcess_def Let_def processRequest_def)

subsection \<open>The ends of a batch run\<close>

lemma finallyBlock_simps [simp]:
  "running (finallyBlock w) = None"
  "st (finallyBlock w) = (st w)\<lparr>processing := False\<rparr>"
  "toasts (finallyBlock w) = toasts w"
  "requests (finallyBlock w) = requests w"
  "processBtn_disabled (ui (finallyBlock w)) = (files (st w) = [])"
  "loadingOverlay_display (ui (finallyBlock w)) = ''none''"
  by (simp_all add: finallyBlock_def Let_def updateProcessButton_def)

lemma catchBlock_simps [simp]:
  "running (catchBlock e w) = None"
  "st (catchBlock e w) = (st w)\<lparr>processing := False\<rparr>"
  "toasts (catchBlock e w)
     = toasts w @ [\<lparr>toast_text = FailedText e, backgroundColor = ''#f56565''\<rparr>]"
  "requests (catchBlock e w) = requests w"
  "processBtn_disabled (ui (catchBlock e w)) = (files (st w) = [])"
  "loadingOverlay_display (ui (catchBlock e w)) = ''none''"
  by (simp_all add: catchBlock_def)

lemma endOfTry_simps [simp]:
  "running (endOfTry prs w) = None"
  "st (endOfTry prs w) = (st w)\<lparr>processing := False\<rparr>"
  "toasts (endOfTry prs w)
     = toasts w @ [\<lparr>toast_text = DoneText (length prs), backgroundColor = ''#48bb78''\<rparr>]"
  "requests (endOfTry prs w) = requests w"
  "processBtn_disabled (ui (endOfTry prs w)) = (files (st w) = [])"
  "loadingOverlay_display (ui (endOfTry prs w)) = ''none''"
  by (simp_all add: endOfTry_def Let_def)

lemma processLoop_simps:
  "i < length us \<Longrightarrow>
     processLoop us i prs w = (beforeProcess us i w)\<lparr>running := Some (AwaitProcess us i prs)\<rparr>"
  "\<not> i < length us \<Longrightarrow> processLoop us i prs w = endOfTry prs w"
  by (simp_all add: processLoop_def)

lemma uploadLoop_simps:
  "i < length (files (st w)) \<Longrightarrow>
     uploadLoop i us w = (beforeUpload i w)\<lparr>running := Some (AwaitUpload i us)\<rparr>"
  "\<not> i < length (files (st w)) \<Longrightarrow> uploadLoop i us w = processLoop us 0 [] w"
  by (simp_all add: uploadLoop_def)

text \<open>No segment of the run writes the staged list or the cache of identifiers, and the
  only segments that lower the flag are those that end the run.\<close>

lemma processLoop_frame [simp]:
  "files (st (processLoop us i prs w)) = files (st w)"
  "uploadedFileIds (st (processLoop us i prs w)) = uploadedFileIds (st w)"
  by (simp_all add: processLoop_def)

lemma uploadLoop_frame [simp]:
  "files (st (uploadLoop i us w)) = files (st w)"
  "uploadedFileIds (st (uploadLoop i us w)) = uploadedFileIds (st w)"
  by (simp_all add: uploadLoop_def)

lemma handleProcess_frame [simp]:
  "files (st (handleProcess w)) = files (st w)"
  "uploadedFileIds (st (handleProcess w)) = uploadedFileIds (st w)"
  by (simp_all add: handleProcess_def Let_def)

lemma fetchSettled_frame [simp]:
  "files (st (fetchSettled a w)) = files (st w)"
  "uploadedFileIds (st (fetchSettled a w)) = uploadedFileIds (st w)"
  by (simp_all add: fetchSettled_def split: option.splits task.splits answer.splits)

lemma uploadBodySettled_frame [simp]:
  "files (st (uploadBodySettled body w)) = files (st w)"
  "uploadedFileIds (st (uploadBodySettled body w)) = uploadedFileIds (st w)"
  by (simp_all add: uploadBodySettled_def split: option.splits task.splits sum.splits)

lemma processBodySettled_frame [simp]:
  "files (st (processBodySettled body w)) = files (st w)"
  "uploadedFileIds (st (processBodySettled body w)) = uploadedFileIds (st w)"
  by (simp_all add: processBodySettled_def split: option.splits task.splits sum.splits)

lemma handleProcess_starts:
  assumes "files (st w) \<noteq> []" and "\<not> processing (st w)"
  shows "running (handleProcess w) = Some (AwaitUpload 0 [])"
    and "processing (st (handleProcess w))"
    and "requests (handleProcess w) = requests w @ [uploadRequest (files (st w) ! 0)]"
    and "toasts (handleProcess w) = toasts w"
  using assms by (simp_all add: handleProcess_def Let_def uploadLoop_def)

subsection \<open>The sample inputs, evaluated\<close>

lemma sample_not_rejected:
  "validate scan_png w = (True, w)" "validate photo_jpeg w = (True, w)"
  by (simp_all add: validate_def validTypes_def maxSize_def scan_png_def photo_jpeg_def)

lemma two_staged_state:
  "st two_staged =
     \<lparr>files = [scan_png, photo_jpeg], uploadedFileIds = Map.empty, processing = False\<rparr>"
  "running two_staged = None"
  by (simp_all add: two_staged_def handleFileSelect_def addFiles_def sample_not_rejected
        stage_def fresh_world_def page_load_def initial_state_def Let_def)
     (simp add: scan_png_def photo_jpeg_def)

lemma two_staged_files [simp]:
  "files (st two_staged) = [scan_png, photo_jpeg]" "processing (st two_staged) = False"
  by (simp_all add: two_staged_state)

lemma fresh_world_simps [simp]:
  "files (st fresh_world) = []" "processing (st fresh_world) = False"
  "toasts fresh_world = []" "running fresh_world = None"
  by (simp_all add: fresh_world_def page_load_def initial_state_def)

subsection \<open>The process trigger\<close>

text \<open>
  C7. Whenever \<^verbatim>\<open>updateProcessButton\<close> re-evaluates the process trigger, the trigger
  is enabled exactly if the staged list is not empty and the processing flag is false.
\<close>

theorem updateProcessButton_enabled_iff:
  "(\<not> processBtn_disabled (ui (updateProcessButton w)))
     = (files (st w) \<noteq> [] \<and> \<not> processing (st w))"
  by (simp add: updateProcessButton_def)

theorem updateProcessButton_enabled_iff_witness:
  "\<not> processBtn_disabled (ui (updateProcessButton two_staged))
   \<and> processBtn_disabled (ui (updateProcessButton fresh_world))"
  using updateProcessButton_enabled_iff [of two_staged]
        updateProcessButton_enabled_iff [of fresh_world]
  by simp

text \<open>
  C8. When the staged list is empty or the processing flag is already true, the process
  action returns at once: the world after it is the world before it, so no request was
  sent and neither the state object nor the page has changed.
\<close>

theorem handleProcess_guarded_noop:
  "files (st w) = [] \<or> processing (st w) \<Longrightarrow> handleProcess w = w"
  by (auto simp add: handleProcess_def)

theorem handleProcess_guarded_noop_witness:
  "(files (st fresh_world) = [] \<or> processing (st fresh_world))
   \<and> handleProcess fresh_world = fresh_world
   \<and> processing (st (handleProcess two_staged))
   \<and> handleProcess (handleProcess two_staged) = handleProcess two_staged"
proof -
  have a: "files (st fresh_world) = [] \<or> processing (st fresh_world)"
    by simp
  have p: "processing (st (handleProcess two_staged))"
    by (simp add: handleProcess_starts)
  then have b: "files (st (handleProcess two_staged)) = []
                \<or> processing (st (handleProcess two_staged))"
    by simp
  show ?thesis
    using a p handleProcess_guarded_noop [OF a] handleProcess_guarded_noop [OF b]
    by simp
qed

subsection \<open>Removing a staged file\<close>

lemma files_removeFile: "files (st (removeFile i w)) = splice1 i (files (st w))"
  by (simp add: removeFile_def Let_def)

lemma splice1_in_range:
  assumes "0 \<le> i" and "i < int (length xs)"
  shows "splice1 i xs = take (nat i) xs @ drop (Suc (nat i)) xs"
  using assms by (simp add: splice1_def Let_def min_def)

text \<open>
  C9. Removing index \<open>i\<close> with \<open>0 \<le> i < n\<close> from a staged list of length \<open>n\<close> gives
  the entries before \<open>i\<close> followed by the entries after \<open>i\<close>: the list has length
  \<open>n - 1\<close>, every entry below \<open>i\<close> keeps its position, every entry above \<open>i\<close> moves
  down by one, and (the staged list having no two entries with the same name and size)
  the removed entry does not occur in it any more.
\<close>

theorem removeFile_in_range:
  assumes "0 \<le> i" and "i < int (length (files (st w)))"
  shows "files (st (removeFile i w))
           = take (nat i) (files (st w)) @ drop (Suc (nat i)) (files (st w))
    \<and> length (files (st (removeFile i w))) = length (files (st w)) - 1
    \<and> (\<forall>j. j < nat i \<longrightarrow> files (st (removeFile i w)) ! j = files (st w) ! j)
    \<and> (\<forall>j. nat i \<le> j \<and> j < length (files (st w)) - 1 \<longrightarrow>
            files (st (removeFile i w)) ! j = files (st w) ! Suc j)
    \<and> (noDuplicates (files (st w)) \<longrightarrow>
            files (st w) ! nat i \<notin> set (files (st (removeFile i w))))"
proof -
  let ?xs = "files (st w)"
  let ?k = "nat i"
  let ?ys = "take ?k ?xs @ drop (Suc ?k) ?xs"
  have k: "?k < length ?xs" using assms by simp
  have eq: "files (st (removeFile i w)) = ?ys"
    using assms by (simp add: files_removeFile splice1_in_range)
  have len: "length ?ys = length ?xs - 1"
    using k by simp
  have lo: "\<forall>j. j < ?k \<longrightarrow> ?ys ! j = ?xs ! j"
    using k by (simp add: nth_append)
  have hi: "\<forall>j. ?k \<le> j \<and> j < length ?xs - 1 \<longrightarrow> ?ys ! j = ?xs ! Suc j"
    using k by (auto simp add: nth_append min_def)
  have gone: "noDuplicates ?xs \<longrightarrow> ?xs ! ?k \<notin> set ?ys"
  proof
    assume "noDuplicates ?xs"
    then have d: "distinct ?xs" by (simp add: noDuplicates_def distinct_map)
    have "?xs = take ?k ?xs @ ?xs ! ?k # drop (Suc ?k) ?xs"
      using k by (simp add: id_take_nth_drop)
    then have "distinct (take ?k ?xs @ ?xs ! ?k # drop (Suc ?k) ?xs)" using d by simp
    then show "?xs ! ?k \<notin> set ?ys" by auto
  qed
  show ?thesis using eq len lo hi gone by simp
qed

theorem removeFile_in_range_witness:
  "(0::int) \<le> 0 \<and> 0 < int (length (files (st two_staged)))
   \<and> noDuplicates (files (st two_staged))
   \<and> files (st (removeFile 0 two_staged)) = [photo_jpeg]
   \<and> length (files (st (removeFile 0 two_staged))) = length (files (st two_staged)) - 1
   \<and> scan_png \<notin> set (files (st (removeFile 0 two_staged)))"
proof -
  have a: "(0::int) \<le> 0" by simp
  have b: "0 < int (length (files (st two_staged)))" by simp
  have c: "noDuplicates (files (st two_staged))"
    by (simp add: noDuplicates_def fileKey_def scan_png_def photo_jpeg_def)
  have d: "scan_png \<noteq> photo_jpeg" by (simp add: scan_png_def photo_jpeg_def)
  show ?thesis using a b c d removeFile_in_range [OF a b] by simp
qed

subsection \<open>Validation of candidates\<close>

lemma validate_rejected:
  "validate f w =
     (\<not> rejected f, if rejected f then w\<lparr>toasts := toasts w @ [rejectionToast f]\<rparr> else w)"
  by (auto simp add: validate_def rejected_def validTypes_def maxSize_def rejectionToast_def
        showToast_def)

lemma filterValid_eq:
  "filterValid fs w =
     (filter (\<lambda>f. \<not> rejected f) fs,
      w\<lparr>toasts := toasts w @ map rejectionToast (filter rejected fs)\<rparr>)"
proof (induction fs arbitrary: w)
  case Nil
  show ?case by simp
next
  case (Cons f fs)
  show ?case by (simp add: Cons.IH validate_rejected)
qed

lemma stage_toasts_update: "stage f (w\<lparr>toasts := t\<rparr>) = (stage f w)\<lparr>toasts := t\<rparr>"
  by (simp add: stage_def split: option.splits)

lemma stageAll_toasts_update: "stageAll fs (w\<lparr>toasts := t\<rparr>) = (stageAll fs w)\<lparr>toasts := t\<rparr>"
  by (induction fs arbitrary: w) (simp_all add: stage_toasts_update)

lemma stage_frame [simp]:
  "toasts (stage f w) = toasts w"
  "requests (stage f w) = requests w"
  "running (stage f w) = running w"
  "uploadedFileIds (st (stage f w)) = uploadedFileIds (st w)"
  "processing (st (stage f w)) = processing (st w)"
  by (simp_all add: stage_def split: option.splits)

lemma stageAll_frame [simp]:
  "toasts (stageAll fs w) = toasts w"
  "requests (stageAll fs w) = requests w"
  "running (stageAll fs w) = running w"
  "uploadedFileIds (st (stageAll fs w)) = uploadedFileIds (st w)"
  "processing (st (stageAll fs w)) = processing (st w)"
  by (induction fs arbitrary: w) simp_all

lemma st_addFiles:
  "st (addFiles fs w) = st (stageAll (filter (\<lambda>f. \<not> rejected f) fs) w)"
  by (simp add: addFiles_def filterValid_eq stageAll_toasts_update)

lemma addFiles_frame [simp]:
  "requests (addFiles fs w) = requests w"
  "running (addFiles fs w) = running w"
  by (simp_all add: addFiles_def filterValid_eq stageAll_toasts_update)

lemma toasts_addFiles:
  "toasts (addFiles fs w) = toasts w @ map rejectionToast (filter rejected fs)"
  by (simp add: addFiles_def filterValid_eq stageAll_toasts_update)

text \<open>
  C3. Validation turns away exactly the candidates whose MIME type is not an accepted
  image type or whose size exceeds 10 MiB (\<open>rejected\<close>): all other candidates, and
  only they, pass the filter. Each candidate turned away produces one error notification
  and leaves the staged list as it would be without that candidate; on its own, such a
  candidate leaves the staged list unchanged.
\<close>

theorem addFiles_validation:
  "fst (filterValid cs w) = filter (\<lambda>c. \<not> rejected c) cs
   \<and> toasts (addFiles cs w) = toasts w @ map rejectionToast (filter rejected cs)
   \<and> files (st (addFiles cs w)) = files (st (addFiles (filter (\<lambda>c. \<not> rejected c) cs) w))
   \<and> (rejected c \<longrightarrow> files (st (addFiles [c] w)) = files (st w)
                      \<and> toasts (addFiles [c] w) = toasts w @ [rejectionToast c])"
  by (simp add: filterValid_eq toasts_addFiles st_addFiles)

theorem addFiles_validation_witness:
  "rejected notes_pdf \<and> \<not> rejected scan_png
   \<and> fst (filterValid [notes_pdf, scan_png] fresh_world) = [scan_png]
   \<and> toasts (addFiles [notes_pdf, scan_png] fresh_world)
       = [\<lparr>toast_text = BadTypeText ''notes.pdf'', backgroundColor = ''#f56565''\<rparr>]
   \<and> files (st (addFiles [notes_pdf] fresh_world)) = []"
proof -
  have a: "rejected notes_pdf" by (simp add: rejected_def notes_pdf_def)
  have b: "\<not> rejected scan_png" by (simp add: rejected_def scan_png_def)
  have c: "rejectionToast notes_pdf
             = \<lparr>toast_text = BadTypeText ''notes.pdf'', backgroundColor = ''#f56565''\<rparr>"
    by (simp add: rejectionToast_def validTypes_def notes_pdf_def)
  have d: "toasts fresh_world = []" "files (st fresh_world) = []"
    by simp_all
  show ?thesis
    using a b c d
      addFiles_validation [of "[notes_pdf, scan_png]" fresh_world notes_pdf]
    by simp
qed

subsection \<open>No two staged files with the same name and size\<close>

lemma find_key_None:
  "(find (\<lambda>g. name g = name f \<and> size_f g = size_f f) xs = None)
     = (fileKey f \<notin> fileKey ` set xs)"
  by (force simp add: find_None_iff fileKey_def image_iff)

lemma files_stage:
  "files (st (stage f w))
     = (if fileKey f \<in> fileKey ` set (files (st w)) then files (st w)
        else files (st w) @ [f])"
  using find_key_None [of f "files (st w)"]
  by (auto simp add: stage_def split: option.splits)

lemma noDuplicates_stage:
  "noDuplicates (files (st w)) \<Longrightarrow> noDuplicates (files (st (stage f w)))"
  by (simp add: files_stage noDuplicates_def)

lemma noDuplicates_stageAll:
  "noDuplicates (files (st w)) \<Longrightarrow> noDuplicates (files (st (stageAll fs w)))"
  by (induction fs arbitrary: w) (simp_all add: noDuplicates_stage)

lemma noDuplicates_splice1:
  assumes "noDuplicates xs"
  shows "noDuplicates (splice1 i xs)"
proof -
  define s where "s = nat (if i < 0 then max (int (length xs) + i) 0 else min i (int (length xs)))"
  have eq: "splice1 i xs = take s xs @ drop (Suc s) xs"
    by (simp add: splice1_def Let_def s_def)
  let ?ks = "map fileKey xs"
  have d: "distinct ?ks" using assms by (simp add: noDuplicates_def)
  have "set (take s ?ks) \<inter> set (drop (Suc s) ?ks) = {}"
    using d by (rule set_take_disj_set_drop_if_distinct) simp
  then have "distinct (take s ?ks @ drop (Suc s) ?ks)"
    using d by simp
  then show ?thesis by (simp add: eq noDuplicates_def take_map drop_map)
qed

lemma noDuplicates_handle:
  assumes "noDuplicates (files (st w))"
  shows "noDuplicates (files (st (handle e w)))"
proof (cases e)
  case (FileSelect fs)
  then show ?thesis using assms
    by (simp add: handleFileSelect_def Let_def st_addFiles noDuplicates_stageAll)
next
  case (Drop fs)
  have "files (st (w\<lparr>ui := (ui w)\<lparr>uploadArea_dragover := False\<rparr>\<rparr>)) = files (st w)" by simp
  then show ?thesis using assms Drop
    by (simp add: handleDrop_def st_addFiles noDuplicates_stageAll)
next
  case (RemoveFile i)
  then show ?thesis using assms by (simp add: files_removeFile noDuplicates_splice1)
next
qed (use assms in \<open>simp_all add: handleDragOver_def handleDragLeave_def clearFileList_def
       handleProcessAnother_def Let_def noDuplicates_def\<close>)

lemma noDuplicates_run:
  "noDuplicates (files (st w)) \<Longrightarrow> noDuplicates (files (st (run es w)))"
  by (induction es arbitrary: w) (simp_all add: noDuplicates_handle)

lemma noDuplicates_page_load: "noDuplicates (files (st (run es (page_load p))))"
  by (rule noDuplicates_run) (simp add: page_load_def initial_state_def noDuplicates_def)

lemma two_staged_run: "two_staged = run [FileSelect [scan_png, photo_jpeg]] (page_load fresh_page)"
  by (simp add: two_staged_def fresh_world_def)

text \<open>
  C4. After any sequence of events from the loading of the page, the staged list has no
  two entries with the same name and size, and every event handler preserves this. A candidate that passes
  validation and has the name and size of a staged entry is dropped without a
  notification, the staged list staying as it is; of two such candidates in one batch,
  only the first is staged.
\<close>

theorem staged_list_no_duplicates:
  "noDuplicates (files (st (run es (page_load p))))
   \<and> (noDuplicates (files (st w)) \<longrightarrow> noDuplicates (files (st (handle e w))))
   \<and> (\<not> rejected c \<and> fileKey c \<in> fileKey ` set (files (st w)) \<longrightarrow>
        files (st (addFiles [c] w)) = files (st w) \<and> toasts (addFiles [c] w) = toasts w)
   \<and> (\<not> rejected c \<and> \<not> rejected d \<and> fileKey d = fileKey c
        \<and> fileKey c \<notin> fileKey ` set (files (st w)) \<longrightarrow>
        files (st (addFiles [c, d] w)) = files (st w) @ [c]
        \<and> toasts (addFiles [c, d] w) = toasts w)"
  by (simp add: noDuplicates_page_load noDuplicates_handle st_addFiles toasts_addFiles
        files_stage)

theorem staged_list_no_duplicates_witness:
  "noDuplicates (files (st two_staged))
   \<and> noDuplicates (files (st (handle (Drop [scan_png\<lparr>blob := 7\<rparr>]) two_staged)))
   \<and> \<not> rejected (scan_png\<lparr>blob := 7\<rparr>)
   \<and> fileKey (scan_png\<lparr>blob := 7\<rparr>) \<in> fileKey ` set (files (st two_staged))
   \<and> files (st (addFiles [scan_png\<lparr>blob := 7\<rparr>] two_staged)) = [scan_png, photo_jpeg]
   \<and> toasts (addFiles [scan_png\<lparr>blob := 7\<rparr>] two_staged) = toasts two_staged
   \<and> fileKey scan_png \<notin> fileKey ` set (files (st fresh_world))
   \<and> files (st (addFiles [scan_png, scan_png\<lparr>blob := 7\<rparr>] fresh_world)) = [scan_png]"
proof -
  have a: "\<not> rejected (scan_png\<lparr>blob := 7\<rparr>)" "\<not> rejected scan_png"
    by (simp_all add: rejected_def scan_png_def)
  have b: "fileKey (scan_png\<lparr>blob := 7\<rparr>) = fileKey scan_png"
    by (simp add: fileKey_def)
  have c: "files (st fresh_world) = []" by simp
  show ?thesis
    using a b c
      staged_list_no_duplicates [of "[FileSelect [scan_png, photo_jpeg]]" fresh_page
        two_staged "Drop [scan_png\<lparr>blob := 7\<rparr>]" "scan_png\<lparr>blob := 7\<rparr>" scan_png,
        folded two_staged_run]
      staged_list_no_duplicates [of "[]" fresh_page fresh_world "DragOver" scan_png
        "scan_png\<lparr>blob := 7\<rparr>"]
    by simp
qed

subsection \<open>The cache of upload identifiers\<close>

lemma uploadedFileIds_handle:
  assumes "uploadedFileIds (st w) = Map.empty"
  shows "uploadedFileIds (st (handle e w)) = Map.empty"
proof (cases e)
  case (FileSelect fs)
  then show ?thesis using assms by (simp add: handleFileSelect_def Let_def st_addFiles)
next
  case (Drop fs)
  then show ?thesis using assms by (simp add: handleDrop_def st_addFiles)
next
  case (RemoveFile i)
  then show ?thesis using assms by (simp add: removeFile_def Let_def)
next
qed (use assms in \<open>simp_all add: handleDragOver_def handleDragLeave_def clearFileList_def
       handleProcessAnother_def Let_def\<close>)

lemma uploadedFileIds_run:
  "uploadedFileIds (st w) = Map.empty \<Longrightarrow> uploadedFileIds (st (run es w)) = Map.empty"
  by (induction es arbitrary: w) (simp_all add: uploadedFileIds_handle)

lemma uploadedFileIds_page_load: "uploadedFileIds (st (run es (page_load p))) = Map.empty"
  by (rule uploadedFileIds_run) (simp add: page_load_def initial_state_def)

text \<open>
  C10. No handler stores anything in \<^verbatim>\<open>state.uploadedFileIds\<close>: every segment of a
  batch run leaves it as it is (the upload results live in a local array), so it is the
  empty object after any sequence of events from the loading of the page; there,
  deleting a key in \<^verbatim>\<open>removeFile\<close> and resetting the object in
  \<^verbatim>\<open>clearFileList\<close> leave it as it was.
\<close>

theorem uploadedFileIds_never_populated:
  "uploadedFileIds (st (handleProcess w)) = uploadedFileIds (st w)
   \<and> uploadedFileIds (st (fetchSettled a w)) = uploadedFileIds (st w)
   \<and> uploadedFileIds (st (uploadBodySettled ub w)) = uploadedFileIds (st w)
   \<and> uploadedFileIds (st (processBodySettled pb w)) = uploadedFileIds (st w)
   \<and> uploadedFileIds (st (run es (page_load p))) = Map.empty
   \<and> uploadedFileIds (st (removeFile i (run es (page_load p))))
       = uploadedFileIds (st (run es (page_load p)))
   \<and> uploadedFileIds (st (clearFileList (run es (page_load p))))
       = uploadedFileIds (st (run es (page_load p)))"
proof -
  have "uploadedFileIds (st (removeFile i v)) = (uploadedFileIds (st v))(i := None)" for v
    by (simp add: removeFile_def Let_def)
  moreover have "uploadedFileIds (st (clearFileList v)) = Map.empty" for v
    by (simp add: clearFileList_def Let_def)
  ultimately show ?thesis
    by (simp add: uploadedFileIds_page_load)
qed

theorem uploadedFileIds_never_populated_witness:
  "uploadedFileIds (st (run (FileSelect [scan_png, photo_jpeg] # ProcessClick # last_body_pending)
                          (page_load fresh_page))) = Map.empty
   \<and> uploadedFileIds (st (removeFile 0
         (run (FileSelect [scan_png, photo_jpeg] # ProcessClick # last_body_pending)
            (page_load fresh_page)))) = Map.empty
   \<and> uploadedFileIds (st (clearFileList
         (run (FileSelect [scan_png, photo_jpeg] # ProcessClick # last_body_pending)
            (page_load fresh_page)))) = Map.empty"
  using uploadedFileIds_never_populated
          [of fresh_world "Throws []" "Inl []" "Inl []"
              "FileSelect [scan_png, photo_jpeg] # ProcessClick # last_body_pending"
              fresh_page 0]
  by simp

subsection \<open>Rendering a result\<close>

lemma orEmpty_eq: "orEmpty c = (case c of None \<Rightarrow> [] | Some s \<Rightarrow> s)"
  by (simp add: orEmpty_def split: option.splits)

lemma orZero_eq: "orZero x = (case x of None \<Rightarrow> 0 | Some n \<Rightarrow> n)"
  by (simp add: orZero_def split: option.splits)

lemma eachCell_eq:
  "eachCell hasHeader rowIndex cs html
     = html @ concat (map (cellHTML (if hasHeader \<and> rowIndex = 0 then ''th'' else ''td'')) cs)"
  by (induction cs arbitrary: html) (simp_all add: cellHTML_def orEmpty_eq Let_def)

lemma eachRow_ordinary:
  "\<not> (hasHeader \<and> rowIndex = 0) \<Longrightarrow>
   eachRow hasHeader rowIndex rows html = html @ concat (map ordinaryRow rows)"
proof (induction rows arbitrary: rowIndex html)
  case Nil
  show ?case by simp
next
  case (Cons row rows)
  have "\<not> (hasHeader \<and> Suc rowIndex = 0)" by simp
  from Cons.IH [OF this] show ?case
    using Cons.prems by (auto simp add: eachCell_eq ordinaryRow_def)
qed

lemma buildTable_expected: "buildTable grid = expectedTable grid"
proof (cases grid)
  case Nil
  then show ?thesis by (simp add: buildTable_def expectedTable_def)
next
  case (Cons row rows)
  show ?thesis
  proof (cases "rows = []")
    case True
    then show ?thesis using Cons
      by (simp add: buildTable_def expectedTable_def eachCell_eq ordinaryRow_def)
  next
    case False
    then have "length grid > 1" using Cons by (cases rows) simp_all
    then show ?thesis using Cons
      by (simp add: buildTable_def expectedTable_def eachCell_eq eachRow_ordinary headerRow_def)
  qed
qed

lemma displayResult_page:
  "tablePreview (ui (displayResult r w))
     = (case preview_data r of
          None \<Rightarrow> tablePreview (ui w)
        | Some grid \<Rightarrow> if grid = [] then tablePreview (ui w)
                       else TableHTML (expectedTable grid))"
  "rowCount (ui (displayResult r w)) = (case row_count r of None \<Rightarrow> 0 | Some n \<Rightarrow> n)"
  "colCount (ui (displayResult r w)) = (case col_count r of None \<Rightarrow> 0 | Some n \<Rightarrow> n)"
  "cellCount (ui (displayResult r w))
     = multiply (case row_count r of None \<Rightarrow> 0 | Some n \<Rightarrow> n)
                (case col_count r of None \<Rightarrow> 0 | Some n \<Rightarrow> n)"
  "downloadLink_href (ui (displayResult r w))
     = (case excel_url r of
          None \<Rightarrow> downloadLink_href (ui w)
        | Some url \<Rightarrow> if url = [] then downloadLink_href (ui w) else API_BASE_URL @ url)"
  "resultSection_display (ui (displayResult r w)) = ''block''"
  by (simp_all add: displayResult_def Let_def buildTable_expected orZero_eq split: option.splits)

lemma multiply_exact: "\<bar>x * y\<bar> < 2 ^ 53 \<Longrightarrow> multiply x y = Num (x * y)"
proof -
  assume a: "\<bar>x * y\<bar> < 2 ^ 53"
  have "nat \<bar>x * y\<bar> < nat (2 ^ 53)"
    using a by (simp only: nat_less_eq_zless [OF abs_ge_zero])
  then have "nat \<bar>x * y\<bar> < 2 ^ 53" by simp
  then show ?thesis by (simp add: multiply_def roundToDouble_def Let_def)
qed

lemma bitLength_numeral_example: "bitLength 9007199515875289 = 54"
  by (simp add: bitLength.simps)

text \<open>
  C6, as the code has it. Rendering a result writes the table that the specification
  describes into the table preview when the preview grid has at least one row (first
  row as header cells if there is more than one row, all rows as ordinary cells
  otherwise), and leaves the table preview as it was when the grid is empty or missing.
  In every case the row count and the column count shown are those of the result, zero
  when absent. The cell count shown is their product as the multiplication in double
  precision gives it: the exact product whenever that is below \<open>2^53\<close> in magnitude.
\<close>

theorem displayResult_renders:
  "tablePreview (ui (displayResult r w))
     = (case preview_data r of
          None \<Rightarrow> tablePreview (ui w)
        | Some grid \<Rightarrow> if grid = [] then tablePreview (ui w)
                       else TableHTML (expectedTable grid))
   \<and> rowCount (ui (displayResult r w)) = (case row_count r of None \<Rightarrow> 0 | Some n \<Rightarrow> n)
   \<and> colCount (ui (displayResult r w)) = (case col_count r of None \<Rightarrow> 0 | Some n \<Rightarrow> n)
   \<and> (\<bar>(case row_count r of None \<Rightarrow> 0 | Some n \<Rightarrow> n)
        * (case col_count r of None \<Rightarrow> 0 | Some n \<Rightarrow> n)\<bar> < 2 ^ 53 \<longrightarrow>
       cellCount (ui (displayResult r w))
         = Num ((case row_count r of None \<Rightarrow> 0 | Some n \<Rightarrow> n)
                * (case col_count r of None \<Rightarrow> 0 | Some n \<Rightarrow> n)))"
  by (simp add: displayResult_page multiply_exact)

theorem displayResult_renders_witness:
  "tablePreview (ui (displayResult sample_result fresh_world))
     = TableHTML (''<table><tr><th>H1</th><th>H2</th></tr>''
                  @ ''<tr><td>v1</td><td>v2</td></tr></table>'')
   \<and> rowCount (ui (displayResult sample_result fresh_world)) = 2
   \<and> colCount (ui (displayResult sample_result fresh_world)) = 2
   \<and> \<bar>2 * 2 :: int\<bar> < 2 ^ 53
   \<and> cellCount (ui (displayResult sample_result fresh_world)) = Num 4
   \<and> tablePreview (ui (displayResult (sample_result\<lparr>preview_data := Some [], row_count := None\<rparr>)
                          fresh_world)) = tablePreview (ui fresh_world)
   \<and> cellCount (ui (displayResult (sample_result\<lparr>preview_data := Some [], row_count := None\<rparr>)
                       fresh_world)) = Num 0"
  using displayResult_renders [of sample_result fresh_world]
        displayResult_renders [of "sample_result\<lparr>preview_data := Some [], row_count := None\<rparr>"
                                  fresh_world]
  by (simp add: sample_result_def expectedTable_def headerRow_def ordinaryRow_def cellHTML_def)

text \<open>
  C6 as stated fails for large counts: with 94906267 rows and as many columns the
  product is 9007199515875289, which is not a double, and the cell count shown is
  9007199515875288.
\<close>

theorem displayResult_product_rounded:
  "cellCount (ui (displayResult huge_result fresh_world)) = Num 9007199515875288
   \<and> (94906267 :: int) * 94906267 = 9007199515875289"
  by (simp add: displayResult_page huge_result_def multiply_def roundToDouble_def Let_def
        bitLength_numeral_example)

subsection \<open>Handlers that run while a batch run is suspended\<close>

lemma other_handlers:
  assumes "\<not> ofRun e"
  shows "running (handle e w) = running w"
    and "processing (st (handle e w)) = processing (st w)"
    and "requests (handle e w) = requests w"
    and "\<exists>added. toasts (handle e w) = toasts w @ added
           \<and> (\<forall>t \<in> set added. backgroundColor t = ''#f56565'')"
proof -
  have t: "\<exists>added. toasts (addFiles fs v) = toasts v @ added
           \<and> (\<forall>t \<in> set added. backgroundColor t = ''#f56565'')" for fs v
    by (simp add: toasts_addFiles rejectionToast_def)
  have h: "\<exists>added. toasts (healthSettled a v) = toasts v @ added
           \<and> (\<forall>t \<in> set added. backgroundColor t = ''#f56565'')" for a v
    by (simp add: healthSettled_def Let_def split: answer.splits)
  show "running (handle e w) = running w"
    using assms
    by (cases e) (simp_all add: handleFileSelect_def handleDrop_def handleDragOver_def
        handleDragLeave_def removeFile_def clearFileList_def handleProcessAnother_def Let_def)
  show "processing (st (handle e w)) = processing (st w)"
    using assms
    by (cases e) (simp_all add: handleFileSelect_def handleDrop_def handleDragOver_def
        handleDragLeave_def removeFile_def clearFileList_def handleProcessAnother_def Let_def
        st_addFiles)
  show "requests (handle e w) = requests w"
    using assms
    by (cases e) (simp_all add: handleFileSelect_def handleDrop_def handleDragOver_def
        handleDragLeave_def removeFile_def clearFileList_def handleProcessAnother_def Let_def)
  show "\<exists>added. toasts (handle e w) = toasts w @ added
           \<and> (\<forall>t \<in> set added. backgroundColor t = ''#f56565'')"
  proof (cases e)
    case (HealthSettled a)
    then show ?thesis using h by simp
  next
    case (FileSelect fs)
    then show ?thesis using t [of fs w] by (simp add: handleFileSelect_def Let_def)
  next
    case (Drop fs)
    then show ?thesis
      using t [of fs "w\<lparr>ui := (ui w)\<lparr>uploadArea_dragover := False\<rparr>\<rparr>"]
      by (simp add: handleDrop_def)
  qed (use assms in \<open>simp_all add: handleDragOver_def handleDragLeave_def removeFile_def
         clearFileList_def handleProcessAnother_def Let_def\<close>)
qed

subsection \<open>The flag, the suspended run and its arrays\<close>

lemma consistent_start:
  assumes "files (st w) \<noteq> []" and "\<not> processing (st w)"
  shows "consistent (handleProcess w)"
  using assms by (simp add: handleProcess_starts consistent_def)

lemma index_nth:
  "map index us = [0..<length us] \<Longrightarrow> i < length us \<Longrightarrow> index (us ! i) = i"
  by (metis add_0 length_map nth_map nth_upt)

lemma consistent_handle:
  assumes "consistent w"
  shows "consistent (handle e w)"
proof (cases "ofRun e")
  case False
  then show ?thesis
    using assms other_handlers(1,2) [of e w] by (simp add: consistent_def)
next
  case True
  show ?thesis
  proof (cases e)
    case ProcessClick
    show ?thesis
    proof (cases "files (st w) = [] \<or> processing (st w)")
      case True
      then have "handleProcess w = w" by (auto simp add: handleProcess_def)
      then show ?thesis using assms ProcessClick by simp
    next
      case False
      then show ?thesis using ProcessClick by (simp add: consistent_start)
    qed
  next
    case (FetchSettled a)
    then show ?thesis using assms
      by (auto simp add: consistent_def fetchSettled_def
            split: option.splits task.splits answer.splits)
  next
    case (UploadBodySettled body)
    have len: "length us = i" if "map index us = [0..<i]" for us :: "upload_result list" and i
      using that by (metis length_map length_upt minus_nat.diff_0)
    show ?thesis using assms UploadBodySettled
      by (auto simp add: consistent_def uploadBodySettled_def uploadLoop_def processLoop_def
            dest: len split: option.splits task.splits sum.splits)
  next
    case (ProcessBodySettled body)
    show ?thesis using assms ProcessBodySettled
      by (auto simp add: consistent_def processBodySettled_def processLoop_def index_nth
            split: option.splits task.splits sum.splits)
  qed (use True in simp_all)
qed


lemma inFlight_running: "inFlight es w \<Longrightarrow> running w \<noteq> None"
  by (cases es) simp_all

subsection \<open>The cleanup of a batch run\<close>


subsection \<open>A batch run whose upload is refused\<close>

lemma idle_stays:
  "running w = None \<Longrightarrow> ProcessClick \<notin> set es \<Longrightarrow>
   running (run es w) = None \<and> requests (run es w) = requests w"
proof (induction es arbitrary: w)
  case Nil
  then show ?case by simp
next
  case (Cons e es)
  have step: "running (handle e w) = None \<and> requests (handle e w) = requests w"
  proof (cases "ofRun e")
    case False
    then show ?thesis using Cons.prems(1) other_handlers(1,3) [of e w] by simp
  next
    case True
    then show ?thesis using Cons.prems
      by (cases e)
         (simp_all add: fetchSettled_def uploadBodySettled_def processBodySettled_def)
  qed
  have "ProcessClick \<notin> set es" using Cons.prems(2) by simp
  with Cons.IH [of "handle e w"] step show ?case by simp
qed

text \<open>Once the run is in its processing loop, it does not come back to the upload
  loop.\<close>

lemma processing_step:
  assumes "consistent w" and "running w \<noteq> None" and "\<not> uploading (running w)"
  shows "\<not> uploading (running (handle e w))"
proof (cases "ofRun e")
  case False
  then show ?thesis using assms other_handlers(1) [of e w] by simp
next
  case True
  have flag: "processing (st w)" using assms(1,2) by (simp add: consistent_def)
  show ?thesis
  proof (cases e)
    case ProcessClick
    then show ?thesis using assms flag by (simp add: handleProcess_def)
  next
    case (FetchSettled a)
    then show ?thesis using assms
      by (auto simp add: fetchSettled_def split: option.splits task.splits answer.splits)
  next
    case (UploadBodySettled body)
    then show ?thesis using assms
      by (auto simp add: uploadBodySettled_def split: option.splits task.splits sum.splits)
  next
    case (ProcessBodySettled body)
    then show ?thesis using assms
      by (auto simp add: processBodySettled_def processLoop_def
            split: option.splits task.splits sum.splits)
  qed (use True in simp_all)
qed

lemma processing_stays:
  "consistent w \<Longrightarrow> running w \<noteq> None \<Longrightarrow> \<not> uploading (running w) \<Longrightarrow> inFlight es w \<Longrightarrow>
   \<not> uploading (running (run es w))"
proof (induction es arbitrary: w)
  case Nil
  then show ?case by simp
next
  case (Cons e es)
  have fl: "inFlight es (handle e w)" using Cons.prems(4) by simp
  show ?case
    using Cons.IH [of "handle e w"] fl Cons.prems
          consistent_handle [of w e] inFlight_running [OF fl] processing_step [of w e]
    by simp
qed

lemma uploading_step:
  assumes "consistent w" and "uploading (running w)" and "uploading (running (handle e w))"
  shows "\<exists>sent. requests (handle e w) = requests w @ sent \<and> (\<forall>q \<in> set sent. isUpload q)"
proof (cases "ofRun e")
  case False
  then show ?thesis using other_handlers(3) [of e w] by simp
next
  case True
  have "running w \<noteq> None" using assms(2) by (cases "running w") simp_all
  then have flag: "processing (st w)" using assms(1) by (simp add: consistent_def)
  show ?thesis
  proof (cases e)
    case ProcessClick
    then show ?thesis using flag by (simp add: handleProcess_def)
  next
    case (FetchSettled a)
    then show ?thesis using assms(2,3)
      by (auto simp add: fetchSettled_def split: option.splits task.splits answer.splits if_splits)
  next
    case (UploadBodySettled body)
    then show ?thesis using assms(2,3)
      by (auto simp add: uploadBodySettled_def uploadLoop_def processLoop_def uploadRequest_def
            split: option.splits task.splits sum.splits if_splits)
  next
    case (ProcessBodySettled body)
    then show ?thesis using assms(2,3)
      by (auto simp add: processBodySettled_def split: option.splits task.splits)
  qed (use True in simp_all)
qed

lemma uploading_requests:
  "consistent w \<Longrightarrow> uploading (running w) \<Longrightarrow> inFlight es w \<Longrightarrow>
   uploading (running (run es w)) \<Longrightarrow>
   \<exists>sent. requests (run es w) = requests w @ sent \<and> (\<forall>q \<in> set sent. isUpload q)"
proof (induction es arbitrary: w)
  case Nil
  then show ?case by simp
next
  case (Cons e es)
  let ?w = "handle e w"
  have fl: "inFlight es ?w" using Cons.prems(3) by simp
  have c: "consistent ?w" using Cons.prems(1) by (rule consistent_handle)
  have r: "running ?w \<noteq> None" using fl by (rule inFlight_running)
  have up: "uploading (running ?w)"
  proof (rule ccontr)
    assume "\<not> uploading (running ?w)"
    then have "\<not> uploading (running (run es ?w))"
      using c r fl by (simp add: processing_stays)
    then show False using Cons.prems(4) by simp
  qed
  obtain s1 where s1: "requests ?w = requests w @ s1" "\<forall>q \<in> set s1. isUpload q"
    using uploading_step [OF Cons.prems(1,2) up] by blast
  obtain s2 where s2: "requests (run es ?w) = requests ?w @ s2" "\<forall>q \<in> set s2. isUpload q"
    using Cons.IH [OF c up fl] Cons.prems(4) by auto
  have "requests (run (e # es) w) = requests w @ (s1 @ s2)" using s1 s2 by simp
  moreover have "\<forall>q \<in> set (s1 @ s2). isUpload q" using s1 s2 by auto
  ultimately show ?case by blast
qed

text \<open>
  C1, as the code has it. Take a batch run started by a click that passes the guard, any
  events during which it stays in flight, and let the pending upload then be answered
  with a non-success status. The run ends at once. Every request sent since the click
  was an upload (no processing call was made), none is sent by the refusal, and none is
  sent afterwards unless the trigger is clicked again. One error notification is shown,
  carrying the status text; the processing flag is false, and the trigger is disabled
  exactly if the staged list is empty at that moment.
\<close>

theorem upload_refused_aborts:
  assumes "files (st w0) \<noteq> []" and "\<not> processing (st w0)"
    and "inFlight es (handleProcess w0)"
    and "w1 = run es (handleProcess w0)"
    and "running w1 = Some (AwaitUpload k us)"
    and "w2 = handle (FetchSettled (Resolves False s)) w1"
  shows "running w2 = None
    \<and> (\<exists>sent. requests w1 = requests w0 @ sent \<and> (\<forall>q \<in> set sent. isUpload q))
    \<and> requests w2 = requests w1
    \<and> (\<forall>later. ProcessClick \<notin> set later \<longrightarrow> requests (run later w2) = requests w2)
    \<and> toasts w2 = toasts w1 @ [\<lparr>toast_text = FailedText (UploadFailed s),
                                  backgroundColor = ''#f56565''\<rparr>]
    \<and> \<not> processing (st w2)
    \<and> processBtn_disabled (ui w2) = (files (st w2) = [])"
proof -
  let ?c = "handleProcess w0"
  have c: "consistent ?c" using assms(1,2) by (rule consistent_start)
  have u: "uploading (running ?c)" using assms(1,2) by (simp add: handleProcess_starts)
  have u1: "uploading (running (run es ?c))" using assms(4,5) by simp
  obtain s1 where s1: "requests (run es ?c) = requests ?c @ s1" "\<forall>q \<in> set s1. isUpload q"
    using uploading_requests [OF c u assms(3) u1] by blast
  have "requests w1 = requests w0 @ (uploadRequest (files (st w0) ! 0) # s1)"
    using s1 assms(1,2,4) by (simp add: handleProcess_starts)
  moreover have "\<forall>q \<in> set (uploadRequest (files (st w0) ! 0) # s1). isUpload q"
    using s1 by (simp add: uploadRequest_def)
  ultimately have sent: "\<exists>sent. requests w1 = requests w0 @ sent \<and> (\<forall>q \<in> set sent. isUpload q)"
    by blast
  have w2: "w2 = catchBlock (UploadFailed s) w1"
    using assms(5,6) by (simp add: fetchSettled_def)
  have idle: "running w2 = None" by (simp add: w2)
  have later: "\<forall>later. ProcessClick \<notin> set later \<longrightarrow> requests (run later w2) = requests w2"
    using idle_stays [OF idle] by blast
  show ?thesis using sent later by (simp add: w2)
qed

subsection \<open>The sample courses of events, evaluated\<close>

lemma two_staged_more [simp]:
  "toasts two_staged = []"
  "requests two_staged = [Get (API_BASE_URL @ ''/health'')]"
  by (simp_all add: two_staged_def handleFileSelect_def toasts_addFiles Let_def
        fresh_world_def page_load_def rejected_def scan_png_def photo_jpeg_def)

lemma started [simp]:
  "running (handleProcess two_staged) = Some (AwaitUpload 0 [])"
  "requests (handleProcess two_staged)
     = [Get (API_BASE_URL @ ''/health''), uploadRequest scan_png]"
  "toasts (handleProcess two_staged) = []"
  by (simp_all add: handleProcess_starts)

lemma second_upload_pending_state:
  "inFlight second_upload_pending (handleProcess two_staged)"
  "running (run second_upload_pending (handleProcess two_staged))
     = Some (AwaitUpload 1 [\<lparr>index = 0, fileId = ''a1'', filename_u = ''x.png''\<rparr>])"
  "requests (run second_upload_pending (handleProcess two_staged))
     = [Get (API_BASE_URL @ ''/health''), uploadRequest scan_png, uploadRequest photo_jpeg]"
  "toasts (run second_upload_pending (handleProcess two_staged)) = []"
  "files (st (run second_upload_pending (handleProcess two_staged))) = [scan_png, photo_jpeg]"
  by (simp_all add: second_upload_pending_def fetchSettled_def uploadBodySettled_def
        uploadLoop_def)


lemma removed_while_uploading_state:
  "running removed_while_uploading = Some (AwaitUpload 0 [])"
  "files (st removed_while_uploading) = []"
  "requests removed_while_uploading
     = [Get (API_BASE_URL @ ''/health''), uploadRequest scan_png]"
proof -
  let ?w = "run [FileSelect [scan_png]] fresh_world"
  have v: "validate scan_png w = (True, w)" for w by (rule sample_not_rejected)
  have f: "files (st ?w) = [scan_png]" "processing (st ?w) = False"
      "requests ?w = [Get (API_BASE_URL @ ''/health'')]"
    by (simp_all add: handleFileSelect_def addFiles_def v stage_def Let_def
          fresh_world_def page_load_def initial_state_def)
  have r: "removed_while_uploading = removeFile 0 (handleProcess ?w)"
    by (simp add: removed_while_uploading_def)
  show "running removed_while_uploading = Some (AwaitUpload 0 [])"
    using f by (simp add: r removeFile_def Let_def handleProcess_starts)
  show "files (st removed_while_uploading) = []"
    using f by (simp add: r files_removeFile splice1_def)
  show "requests removed_while_uploading
     = [Get (API_BASE_URL @ ''/health''), uploadRequest scan_png]"
    using f by (simp add: r removeFile_def Let_def handleProcess_starts)
qed

subsection \<open>The end of a run, on the samples\<close>


theorem upload_refused_aborts_witness:
  "files (st two_staged) \<noteq> [] \<and> \<not> processing (st two_staged)
   \<and> inFlight second_upload_pending (handleProcess two_staged)
   \<and> running (run second_upload_pending (handleProcess two_staged))
       = Some (AwaitUpload 1 [\<lparr>index = 0, fileId = ''a1'', filename_u = ''x.png''\<rparr>])
   \<and> running (handle (FetchSettled (Resolves False ''Internal Server Error''))
                 (run second_upload_pending (handleProcess two_staged))) = None
   \<and> requests (handle (FetchSettled (Resolves False ''Internal Server Error''))
                  (run second_upload_pending (handleProcess two_staged)))
       = requests two_staged @ [uploadRequest scan_png, uploadRequest photo_jpeg]
   \<and> toasts (handle (FetchSettled (Resolves False ''Internal Server Error''))
                (run second_upload_pending (handleProcess two_staged)))
       = [\<lparr>toast_text = FailedText (UploadFailed ''Internal Server Error''),
           backgroundColor = ''#f56565''\<rparr>]
   \<and> \<not> processing (st (handle (FetchSettled (Resolves False ''Internal Server Error''))
                            (run second_upload_pending (handleProcess two_staged))))
   \<and> \<not> processBtn_disabled (ui (handle (FetchSettled (Resolves False ''Internal Server Error''))
                                     (run second_upload_pending (handleProcess two_staged))))"
proof -
  let ?w = "run second_upload_pending (handleProcess two_staged)"
  let ?e = "FetchSettled (Resolves False ''Internal Server Error'')"
  have a: "files (st two_staged) \<noteq> []" by simp
  have b: "\<not> processing (st two_staged)" by simp
  have c: "inFlight second_upload_pending (handleProcess two_staged)"
    by (rule second_upload_pending_state)
  have d: "running ?w = Some (AwaitUpload 1 [\<lparr>index = 0, fileId = ''a1'', filename_u = ''x.png''\<rparr>])"
    by (rule second_upload_pending_state)
  have f: "files (st (handle ?e ?w)) = [scan_png, photo_jpeg]"
    by (simp add: second_upload_pending_state)
  show ?thesis
    using a b c d f upload_refused_aborts [OF a b c refl d refl, of "''Internal Server Error''"]
    by (simp add: second_upload_pending_state)
qed

text \<open>
  C1 as stated fails where it says that the trigger is enabled again: the one staged
  file is removed while its upload is pending, the upload is then refused, and the
  trigger stays disabled after the run has ended with the flag false.
\<close>

theorem upload_refused_trigger_disabled:
  "running removed_while_uploading = Some (AwaitUpload 0 [])
   \<and> running (handle (FetchSettled (Resolves False ''Internal Server Error''))
                 removed_while_uploading) = None
   \<and> \<not> processing (st (handle (FetchSettled (Resolves False ''Internal Server Error''))
                            removed_while_uploading))
   \<and> processBtn_disabled (ui (handle (FetchSettled (Resolves False ''Internal Server Error''))
                                   removed_while_uploading))"
  by (simp add: fetchSettled_def removed_while_uploading_state)

subsection \<open>A batch run in which every call succeeds\<close>







end
